theory Spec2Isabelle
  imports Complex_Main
begin

section \<open>Outcomes of calls\<close>

text \<open>
  A JavaScript call either returns a value, throws, or never returns. The rule evaluator
  of \<^verbatim>\<open>src/lib/store.ts\<close> runs rule text as code, so all three can happen.
\<close>

datatype 'a outcome = Returns 'a | Throws | Diverges

text \<open>
  Values a dynamically evaluated rule can produce: a boolean, an (integer-valued) number,
  or any other value, of which only its truthiness (\<^verbatim>\<open>ToBoolean\<close>) is kept.
\<close>

datatype js_value = JBool bool | JNum int | JOpaque bool

fun truthy :: "js_value \<Rightarrow> bool" where
  "truthy (JBool b) = b"
| "truthy (JNum n) = (n \<noteq> 0)"
| "truthy (JOpaque t) = t"

section \<open>Number to string, and string replacement\<close>

text \<open>
  Coordinates are modelled as integers: for an integer-valued number below \<^verbatim>\<open>1e21\<close> in
  magnitude \<^verbatim>\<open>Number.prototype.toString\<close> prints the decimal digits, with a leading minus
  sign when negative. The theorems below are about safe integers (\<open>safe_int\<close>), which are
  doubles.
\<close>

definition digit_char :: "nat \<Rightarrow> char" where
  "digit_char d = char_of (48 + d)"

definition is_digit :: "char \<Rightarrow> bool" where
  "is_digit c = (48 \<le> (of_char c :: nat) \<and> (of_char c :: nat) \<le> 57)"

definition digit_val :: "char \<Rightarrow> nat" where
  "digit_val c = of_char c - 48"

fun digits :: "nat \<Rightarrow> string" where
  "digits n = (if n < 10 then [digit_char n] else digits (n div 10) @ [digit_char (n mod 10)])"

declare digits.simps [simp del]

definition toString :: "int \<Rightarrow> string" where
  "toString i = (if i < 0 then CHR ''-'' # digits (nat (- i)) else digits (nat i))"

text \<open>\<^verbatim>\<open>s.replace(/c/g, r)\<close> for a one-character pattern and a replacement without \<^verbatim>\<open>$\<close>.\<close>

definition replace_all :: "char \<Rightarrow> string \<Rightarrow> string \<Rightarrow> string" where
  "replace_all c r s = concat (map (\<lambda>d. if d = c then r else [d]) s)"

section \<open>The fragment of JavaScript expressions that is modelled\<close>

text \<open>
  \<^verbatim>\<open>new Function('return ' + expression)()\<close> hands the text to the JavaScript engine. The
  engine is modelled on a fragment: decimal integer literals, unary minus on a literal,
  the six comparisons, \<^verbatim>\<open>&&\<close>, \<^verbatim>\<open>||\<close>, parentheses and spaces. On any other text the model
  gives no answer of its own and asks the host (a parameter of the evaluator). On the
  fragment the engine is taken to follow the language standard, with dynamic evaluation
  permitted.
\<close>

datatype token =
  TNum nat | TLt | TLe | TGt | TGe | TEq | TNe | TAnd | TOr | TLParen | TRParen | TMinus | TAssign

definition starts_with :: "string \<Rightarrow> string \<Rightarrow> bool" where
  "starts_with p s = (take (length p) s = p)"

text \<open>
  One punctuator, by longest match, with the number of characters it takes. Punctuators of
  JavaScript that are outside the fragment (\<^verbatim>\<open>===\<close>, \<^verbatim>\<open>=>\<close>, \<^verbatim>\<open>!==\<close>, \<^verbatim>\<open><<\<close>, \<^verbatim>\<open><!--\<close>, \<^verbatim>\<open>>>\<close>,
  \<^verbatim>\<open>&&=\<close>, \<^verbatim>\<open>||=\<close>, \<^verbatim>\<open>--\<close>, \<^verbatim>\<open>-=\<close>, a single \<^verbatim>\<open>!\<close>, \<^verbatim>\<open>&\<close> or \<^verbatim>\<open>|\<close>) give \<open>None\<close>.
\<close>

definition lex_op :: "string \<Rightarrow> (token \<times> nat) option" where
  "lex_op s =
    (if starts_with ''==='' s then None
     else if starts_with ''=='' s then Some (TEq, 2)
     else if starts_with ''=>'' s then None
     else if starts_with ''='' s then Some (TAssign, 1)
     else if starts_with ''!=='' s then None
     else if starts_with ''!='' s then Some (TNe, 2)
     else if starts_with ''<='' s then Some (TLe, 2)
     else if starts_with ''<<'' s \<or> starts_with ''<!'' s then None
     else if starts_with ''<'' s then Some (TLt, 1)
     else if starts_with ''>='' s then Some (TGe, 2)
     else if starts_with ''>>'' s then None
     else if starts_with ''>'' s then Some (TGt, 1)
     else if starts_with ''&&='' s then None
     else if starts_with ''&&'' s then Some (TAnd, 2)
     else if starts_with ''||='' s then None
     else if starts_with ''||'' s then Some (TOr, 2)
     else if starts_with ''--'' s \<or> starts_with ''-='' s then None
     else if starts_with ''-'' s then Some (TMinus, 1)
     else if starts_with ''('' s then Some (TLParen, 1)
     else if starts_with '')'' s then Some (TRParen, 1)
     else None)"

definition num_of :: "string \<Rightarrow> nat" where
  "num_of ds = foldl (\<lambda>a c. 10 * a + digit_val c) 0 ds"

text \<open>
  Integers up to \<^verbatim>\<open>Number.MAX_SAFE_INTEGER\<close> in magnitude are doubles, and a decimal
  literal up to it denotes itself. A larger literal is rounded to a double: it is left
  outside the fragment.
\<close>

definition max_safe_integer :: int where
  "max_safe_integer = 9007199254740991"

definition safe_int :: "int \<Rightarrow> bool" where
  "safe_int i = (\<bar>i\<bar> \<le> max_safe_integer)"

text \<open>
  The lexer. A run of digits is a decimal literal unless it has a leading zero (a legacy
  octal literal, outside the fragment) or is too large. Only the space is taken as white
  space: a line break after \<^verbatim>\<open>return\<close> would end the statement.
\<close>

function tokenize :: "string \<Rightarrow> token list option" where
  "tokenize [] = Some []"
| "tokenize (c # cs) =
    (if c = CHR '' '' then tokenize cs
     else if is_digit c then
       (if (c = CHR ''0'' \<and> takeWhile is_digit cs \<noteq> [])
           \<or> int (num_of (c # takeWhile is_digit cs)) > max_safe_integer then None
        else map_option (Cons (TNum (num_of (c # takeWhile is_digit cs))))
               (tokenize (dropWhile is_digit cs)))
     else (case lex_op (c # cs) of
             None \<Rightarrow> None
           | Some (t, k) \<Rightarrow> map_option (Cons t) (tokenize (drop (k - 1) cs))))"
  by pat_completeness auto
termination
  by (relation "measure length") (auto simp: length_dropWhile_le le_imp_less_Suc)

section \<open>Parsing and evaluating the fragment\<close>

text \<open>
  \<^verbatim>\<open>a && b\<close> is \<^verbatim>\<open>b\<close> when \<^verbatim>\<open>a\<close> is truthy and \<^verbatim>\<open>a\<close> otherwise; \<^verbatim>\<open>a || b\<close> is \<^verbatim>\<open>a\<close> when \<^verbatim>\<open>a\<close> is
  truthy and \<^verbatim>\<open>b\<close> otherwise. The fragment has no side effects, so both operands may be
  evaluated, and both operators are associative, so the grouping of a chain is immaterial.
\<close>

definition js_and :: "js_value \<Rightarrow> js_value \<Rightarrow> js_value" where
  "js_and a b = (if truthy a then b else a)"

definition js_or :: "js_value \<Rightarrow> js_value \<Rightarrow> js_value" where
  "js_or a b = (if truthy a then a else b)"

fun relop :: "token \<Rightarrow> (int \<Rightarrow> int \<Rightarrow> bool) option" where
  "relop TLt = Some (\<lambda>a b. a < b)"
| "relop TLe = Some (\<lambda>a b. a \<le> b)"
| "relop TGt = Some (\<lambda>a b. a > b)"
| "relop TGe = Some (\<lambda>a b. a \<ge> b)"
| "relop TEq = Some (\<lambda>a b. a = b)"
| "relop TNe = Some (\<lambda>a b. a \<noteq> b)"
| "relop _ = None"

text \<open>A numeric operand: a literal, or a minus sign and a literal.\<close>

fun parse_num :: "token list \<Rightarrow> (int \<times> token list) option" where
  "parse_num (TNum n # r) = Some (int n, r)"
| "parse_num (TMinus # TNum n # r) = Some (- int n, r)"
| "parse_num _ = None"

text \<open>
  A comparison of two numeric operands, or a single numeric operand. A comparison whose
  operands are not both numeric operands is outside the fragment.
\<close>

definition parse_rel :: "token list \<Rightarrow> (js_value \<times> token list) option" where
  "parse_rel ts =
    (case parse_num ts of
       None \<Rightarrow> None
     | Some (a, r) \<Rightarrow>
        (case r of
           [] \<Rightarrow> Some (JNum a, r)
         | t # r' \<Rightarrow>
            (case relop t of
               None \<Rightarrow> Some (JNum a, r)
             | Some f \<Rightarrow>
                (case parse_num r' of
                   None \<Rightarrow> None
                 | Some (b, r'') \<Rightarrow> Some (JBool (f a b), r'')))))"

text \<open>
  Recursive descent, lowest precedence first: \<^verbatim>\<open>||\<close>, then \<^verbatim>\<open>&&\<close>, then a comparison or a
  parenthesised expression. Each function returns the value and the tokens left over.
  The length tests hold for every result of the parser; they are there for termination.
\<close>

function parse_or :: "token list \<Rightarrow> (js_value \<times> token list) option"
  and parse_and :: "token list \<Rightarrow> (js_value \<times> token list) option"
  and parse_cmp :: "token list \<Rightarrow> (js_value \<times> token list) option" where
  "parse_or ts =
    (case parse_and ts of
       None \<Rightarrow> None
     | Some (v, r) \<Rightarrow>
        (if r \<noteq> [] \<and> hd r = TOr \<and> length (tl r) < length ts
         then map_option (\<lambda>(w, r'). (js_or v w, r')) (parse_or (tl r))
         else Some (v, r)))"
| "parse_and ts =
    (case parse_cmp ts of
       None \<Rightarrow> None
     | Some (v, r) \<Rightarrow>
        (if r \<noteq> [] \<and> hd r = TAnd \<and> length (tl r) < length ts
         then map_option (\<lambda>(w, r'). (js_and v w, r')) (parse_and (tl r))
         else Some (v, r)))"
| "parse_cmp ts =
    (if ts \<noteq> [] \<and> hd ts = TLParen
     then (case parse_or (tl ts) of
             None \<Rightarrow> None
           | Some (v, r) \<Rightarrow> if r \<noteq> [] \<and> hd r = TRParen then Some (v, tl r) else None)
     else parse_rel ts)"
  by pat_completeness auto
termination
  by (relation "measure (\<lambda>a. case a of
        Inl ts \<Rightarrow> 3 * length ts + 2
      | Inr (Inl ts) \<Rightarrow> 3 * length ts + 1
      | Inr (Inr ts) \<Rightarrow> 3 * length ts)") (auto simp: neq_Nil_conv)

declare parse_or.simps [simp del] parse_and.simps [simp del] parse_cmp.simps [simp del]

text \<open>
  The function body \<^verbatim>\<open>return e\<close>. When the tokens of \<^verbatim>\<open>e\<close> are used up the call returns
  the value. When an expression of the fragment is followed by \<^verbatim>\<open>=\<close> the text is an
  assignment to something that is not assignable, an early \<^verbatim>\<open>SyntaxError\<close>, thrown by
  \<^verbatim>\<open>new Function\<close>. Everything else is outside the fragment (\<open>None\<close>).
\<close>

definition js_fragment :: "string \<Rightarrow> js_value outcome option" where
  "js_fragment body =
    (if starts_with ''return '' body
     then (case tokenize (drop 7 body) of
             None \<Rightarrow> None
           | Some ts \<Rightarrow>
              (case parse_or ts of
                 None \<Rightarrow> None
               | Some (v, r) \<Rightarrow>
                  if r = [] then Some (Returns v)
                  else if hd r = TAssign then Some Throws
                  else None))
     else None)"

text \<open>
  \<^verbatim>\<open>new Function(body)()\<close>: the fragment where it answers, the host otherwise. The host
  stands for the rest of the language and its global environment.
\<close>

type_synonym host = "string \<Rightarrow> js_value outcome"

definition new_Function :: "host \<Rightarrow> string \<Rightarrow> js_value outcome" where
  "new_Function h body = (case js_fragment body of Some out \<Rightarrow> out | None \<Rightarrow> h body)"

section \<open>Quadrants and classification (\<^verbatim>\<open>src/lib/store.ts\<close>)\<close>

record quadrant =
  qid :: string
  name :: string
  description :: string
  implication :: string
  rule :: string
  color :: string

text \<open>
  \<^verbatim>\<open>evaluateQuadrantRule\<close>: both replacements, then the dynamic evaluation, all inside
  \<^verbatim>\<open>try\<close>; the \<^verbatim>\<open>catch\<close> turns every throw into \<^verbatim>\<open>false\<close>. The value of the rule is returned as
  it is, whatever its type.
\<close>

definition expression_of :: "string \<Rightarrow> int \<Rightarrow> int \<Rightarrow> string" where
  "expression_of r x y = replace_all CHR ''y'' (toString y) (replace_all CHR ''x'' (toString x) r)"

definition evaluateQuadrantRule :: "host \<Rightarrow> string \<Rightarrow> int \<Rightarrow> int \<Rightarrow> js_value outcome" where
  "evaluateQuadrantRule h r x y =
    (case new_Function h (''return '' @ expression_of r x y) of
       Returns v \<Rightarrow> Returns v
     | Throws \<Rightarrow> Returns (JBool False)
     | Diverges \<Rightarrow> Diverges)"

text \<open>\<^verbatim>\<open>getQuadrantForItem\<close>: the first quadrant whose rule gives a truthy value, else \<^verbatim>\<open>null\<close>.\<close>

fun getQuadrantForItem :: "host \<Rightarrow> int \<Rightarrow> int \<Rightarrow> quadrant list \<Rightarrow> quadrant option outcome" where
  "getQuadrantForItem h x y [] = Returns None"
| "getQuadrantForItem h x y (q # qs) =
    (case evaluateQuadrantRule h (rule q) x y of
       Returns v \<Rightarrow> if truthy v then Returns (Some q) else getQuadrantForItem h x y qs
     | Throws \<Rightarrow> Throws
     | Diverges \<Rightarrow> Diverges)"

text \<open>
  \<^verbatim>\<open>generateDefaultQuadrants\<close>. \<^verbatim>\<open>toLowerCase\<close> is modelled on the ASCII letters.
\<close>

definition toLowerCase :: "string \<Rightarrow> string" where
  "toLowerCase s =
    map (\<lambda>c. if 65 \<le> (of_char c :: nat) \<and> (of_char c :: nat) \<le> 90
             then char_of ((of_char c :: nat) + 32) else c) s"

definition generateDefaultQuadrants :: "string \<Rightarrow> string \<Rightarrow> quadrant list" where
  "generateDefaultQuadrants xLabel yLabel =
    (let xLow = ''Low '' @ xLabel; xHigh = ''High '' @ xLabel;
         yLow = ''Low '' @ yLabel; yHigh = ''High '' @ yLabel in
     [\<lparr>qid = ''Q1'', name = xHigh @ '' / '' @ yHigh,
       description = ''Items with high '' @ toLowerCase xLabel @ '' and high '' @ toLowerCase yLabel,
       implication = ''High priority items requiring immediate attention'',
       rule = ''x >= 50 && y >= 50'', color = ''#ef4444''\<rparr>,
      \<lparr>qid = ''Q2'', name = xLow @ '' / '' @ yHigh,
       description = ''Items with low '' @ toLowerCase xLabel @ '' and high '' @ toLowerCase yLabel,
       implication = ''Important but not urgent items'',
       rule = ''x < 50 && y >= 50'', color = ''#f97316''\<rparr>,
      \<lparr>qid = ''Q3'', name = xLow @ '' / '' @ yLow,
       description = ''Items with low '' @ toLowerCase xLabel @ '' and low '' @ toLowerCase yLabel,
       implication = ''Low priority items that can be deprioritized'',
       rule = ''x < 50 && y < 50'', color = ''#22c55e''\<rparr>,
      \<lparr>qid = ''Q4'', name = xHigh @ '' / '' @ yLow,
       description = ''Items with high '' @ toLowerCase xLabel @ '' and low '' @ toLowerCase yLabel,
       implication = ''Items that may need attention but are not critical'',
       rule = ''x >= 50 && y < 50'', color = ''#3b82f6''\<rparr>])"

text \<open>
  Whether a quadrant's rule holds at a point as \<^verbatim>\<open>getQuadrantForItem\<close> tests it: the
  evaluation returns and its value is truthy.
\<close>

definition rule_holds :: "host \<Rightarrow> int \<Rightarrow> int \<Rightarrow> quadrant \<Rightarrow> bool" where
  "rule_holds h x y q =
    (case evaluateQuadrantRule h (rule q) x y of Returns v \<Rightarrow> truthy v | _ \<Rightarrow> False)"

text \<open>A host that throws on every text. The fragment never consults the host.\<close>

definition throwing_host :: host where
  "throwing_host body = Throws"

section \<open>The rule grammar of the specification\<close>

text \<open>
  The grammar as the specification writes it:
  \<^verbatim>\<open>orExpr := andExpr ("||" andExpr)*\<close>, \<^verbatim>\<open>andExpr := cmpExpr ("&&" cmpExpr)*\<close>,
  \<^verbatim>\<open>cmpExpr := operand op operand | "(" expr ")"\<close>, \<^verbatim>\<open>operand := "x" | "y" | number\<close>.
  Numbers are decimal integer literals. Every token carries the number of spaces written
  before it, so that a rule text is any layout of a sentence of the grammar.
\<close>

datatype operand = OpX | OpY | OpNum nat

datatype cmp_op = Lt | Le | Gt | Ge | Eq | Ne

datatype or_expr = OrOne and_expr | OrMore and_expr nat or_expr
  and and_expr = AndOne cmp_expr | AndMore cmp_expr nat and_expr
  and cmp_expr = Compare nat operand nat cmp_op nat operand | Group nat or_expr nat

definition sp :: "nat \<Rightarrow> string" where
  "sp k = replicate k CHR '' ''"

fun operand_text :: "operand \<Rightarrow> string" where
  "operand_text OpX = ''x''"
| "operand_text OpY = ''y''"
| "operand_text (OpNum n) = digits n"

fun op_text :: "cmp_op \<Rightarrow> string" where
  "op_text Lt = ''<''"
| "op_text Le = ''<=''"
| "op_text Gt = ''>''"
| "op_text Ge = ''>=''"
| "op_text Eq = ''==''"
| "op_text Ne = ''!=''"

fun or_text :: "or_expr \<Rightarrow> string"
  and and_text :: "and_expr \<Rightarrow> string"
  and cmp_text :: "cmp_expr \<Rightarrow> string" where
  "or_text (OrOne a) = and_text a"
| "or_text (OrMore a k e) = and_text a @ sp k @ ''||'' @ or_text e"
| "and_text (AndOne c) = cmp_text c"
| "and_text (AndMore c k a) = cmp_text c @ sp k @ ''&&'' @ and_text a"
| "cmp_text (Compare i a j f k b) = sp i @ operand_text a @ sp j @ op_text f @ sp k @ operand_text b"
| "cmp_text (Group i e j) = sp i @ ''('' @ or_text e @ sp j @ '')''"

text \<open>A rule text of the grammar: a sentence, and spaces after it.\<close>

definition rule_text :: "or_expr \<Rightarrow> nat \<Rightarrow> string" where
  "rule_text e k = or_text e @ sp k"

text \<open>What the sentence means at a point, read off the grammar.\<close>

fun operand_value :: "int \<Rightarrow> int \<Rightarrow> operand \<Rightarrow> int" where
  "operand_value x y OpX = x"
| "operand_value x y OpY = y"
| "operand_value x y (OpNum n) = int n"

fun op_holds :: "cmp_op \<Rightarrow> int \<Rightarrow> int \<Rightarrow> bool" where
  "op_holds Lt a b = (a < b)"
| "op_holds Le a b = (a \<le> b)"
| "op_holds Gt a b = (a > b)"
| "op_holds Ge a b = (a \<ge> b)"
| "op_holds Eq a b = (a = b)"
| "op_holds Ne a b = (a \<noteq> b)"

fun or_holds :: "int \<Rightarrow> int \<Rightarrow> or_expr \<Rightarrow> bool"
  and and_holds :: "int \<Rightarrow> int \<Rightarrow> and_expr \<Rightarrow> bool"
  and cmp_holds :: "int \<Rightarrow> int \<Rightarrow> cmp_expr \<Rightarrow> bool" where
  "or_holds x y (OrOne a) = and_holds x y a"
| "or_holds x y (OrMore a k e) = (and_holds x y a \<or> or_holds x y e)"
| "and_holds x y (AndOne c) = cmp_holds x y c"
| "and_holds x y (AndMore c k a) = (cmp_holds x y c \<and> and_holds x y a)"
| "cmp_holds x y (Compare i a j f k b) = op_holds f (operand_value x y a) (operand_value x y b)"
| "cmp_holds x y (Group i e j) = or_holds x y e"

text \<open>The literals of a sentence are safe integers.\<close>

fun operand_safe :: "operand \<Rightarrow> bool" where
  "operand_safe OpX = True"
| "operand_safe OpY = True"
| "operand_safe (OpNum n) = (int n \<le> max_safe_integer)"

fun or_safe :: "or_expr \<Rightarrow> bool"
  and and_safe :: "and_expr \<Rightarrow> bool"
  and cmp_safe :: "cmp_expr \<Rightarrow> bool" where
  "or_safe (OrOne a) = and_safe a"
| "or_safe (OrMore a k e) = (and_safe a \<and> or_safe e)"
| "and_safe (AndOne c) = cmp_safe c"
| "and_safe (AndMore c k a) = (cmp_safe c \<and> and_safe a)"
| "cmp_safe (Compare i a j f k b) = (operand_safe a \<and> operand_safe b)"
| "cmp_safe (Group i e j) = or_safe e"

text \<open>The tokens of the sentence once the coordinates are written in.\<close>

definition int_tokens :: "int \<Rightarrow> token list" where
  "int_tokens i = (if i < 0 then [TMinus, TNum (nat (- i))] else [TNum (nat i)])"

fun op_token :: "cmp_op \<Rightarrow> token" where
  "op_token Lt = TLt"
| "op_token Le = TLe"
| "op_token Gt = TGt"
| "op_token Ge = TGe"
| "op_token Eq = TEq"
| "op_token Ne = TNe"

fun or_tokens :: "int \<Rightarrow> int \<Rightarrow> or_expr \<Rightarrow> token list"
  and and_tokens :: "int \<Rightarrow> int \<Rightarrow> and_expr \<Rightarrow> token list"
  and cmp_tokens :: "int \<Rightarrow> int \<Rightarrow> cmp_expr \<Rightarrow> token list" where
  "or_tokens x y (OrOne a) = and_tokens x y a"
| "or_tokens x y (OrMore a k e) = and_tokens x y a @ TOr # or_tokens x y e"
| "and_tokens x y (AndOne c) = cmp_tokens x y c"
| "and_tokens x y (AndMore c k a) = cmp_tokens x y c @ TAnd # and_tokens x y a"
| "cmp_tokens x y (Compare i a j f k b) =
     int_tokens (operand_value x y a) @ op_token f # int_tokens (operand_value x y b)"
| "cmp_tokens x y (Group i e j) = TLParen # or_tokens x y e @ [TRParen]"

section \<open>Conditions on the text or tokens that follow\<close>

text \<open>The text after an integer literal must not go on with a digit.\<close>

definition int_text_ok :: "string \<Rightarrow> bool" where
  "int_text_ok r = (r = [] \<or> \<not> is_digit (hd r))"

text \<open>The first character of a comparison or group, after the coordinates are written in.\<close>

fun cmp_start :: "string \<Rightarrow> bool" where
  "cmp_start [] = False"
| "cmp_start (c # cs) = (c = CHR '' '' \<or> c = CHR ''-'' \<or> c = CHR ''('' \<or> is_digit c)"

text \<open>The tokens after a conjunction, and after a disjunction, do not continue it.\<close>

definition and_rest_ok :: "token list \<Rightarrow> bool" where
  "and_rest_ok r = (r = [] \<or> hd r \<noteq> TAnd)"

definition or_rest_ok :: "token list \<Rightarrow> bool" where
  "or_rest_ok r = (r = [] \<or> (hd r \<noteq> TAnd \<and> hd r \<noteq> TOr))"

section \<open>Sample data and the default rules as sentences of the grammar\<close>

text \<open>
  The default quadrants for two labels; the four default rules as sentences of the
  grammar; the index of the default quadrant a point falls in; and a quadrant whose rule
  is an assignment.
\<close>

definition sample_quadrants :: "quadrant list" where
  "sample_quadrants = generateDefaultQuadrants ''Urgency'' ''Impact''"

definition high_high :: or_expr where
  "high_high = OrOne (AndMore (Compare 0 OpX 1 Ge 1 (OpNum 50)) 1 (AndOne (Compare 1 OpY 1 Ge 1 (OpNum 50))))"

definition low_high :: or_expr where
  "low_high = OrOne (AndMore (Compare 0 OpX 1 Lt 1 (OpNum 50)) 1 (AndOne (Compare 1 OpY 1 Ge 1 (OpNum 50))))"

definition low_low :: or_expr where
  "low_low = OrOne (AndMore (Compare 0 OpX 1 Lt 1 (OpNum 50)) 1 (AndOne (Compare 1 OpY 1 Lt 1 (OpNum 50))))"

definition high_low :: or_expr where
  "high_low = OrOne (AndMore (Compare 0 OpX 1 Ge 1 (OpNum 50)) 1 (AndOne (Compare 1 OpY 1 Lt 1 (OpNum 50))))"

definition region_index :: "int \<Rightarrow> int \<Rightarrow> nat" where
  "region_index x y = (if x \<ge> 50 then (if y \<ge> 50 then 0 else 3) else (if y \<ge> 50 then 1 else 2))"

definition assignment_quadrant :: quadrant where
  "assignment_quadrant =
    \<lparr>qid = ''QA'', name = ''Assigned'', description = ''A rule that assigns'',
     implication = ''None'', rule = ''x = 50'', color = ''#000000''\<rparr>"

section \<open>The insight aggregator\<close>

text \<open>
  Items, axes and generated insights, as the component declares them. Coordinates are
  integers (see above); a confidence is a rational number.
\<close>

record item =
  item_name :: string
  item_x :: int
  item_y :: int
  confidence :: rat
  rationale :: string
  citations :: "string list"

record axes =
  axis_x :: string
  axis_y :: string
  axes_rationale :: string

datatype insight_kind = Distribution | Confidence | Outliers | Patterns | Recommendations

datatype icon = BullseyeIcon | ArrowTrendingUpIcon | ExclamationTriangleIcon

record insight =
  insight_type :: insight_kind
  title :: string
  insight_description :: string
  insight_icon :: icon
  insight_color :: string
  insight_items :: "item list option"

text \<open>Sequencing of calls: a throw or a call that never returns ends the whole.\<close>

fun bind_outcome :: "'a outcome \<Rightarrow> ('a \<Rightarrow> 'b outcome) \<Rightarrow> 'b outcome" where
  "bind_outcome (Returns a) f = f a"
| "bind_outcome Throws f = Throws"
| "bind_outcome Diverges f = Diverges"

text \<open>\<^verbatim>\<open>Array.prototype.filter\<close> and \<^verbatim>\<open>map\<close> with a callback that may not return.\<close>

fun filter_outcome :: "('a \<Rightarrow> bool outcome) \<Rightarrow> 'a list \<Rightarrow> 'a list outcome" where
  "filter_outcome p [] = Returns []"
| "filter_outcome p (a # as) =
     bind_outcome (p a) (\<lambda>keep.
     bind_outcome (filter_outcome p as) (\<lambda>rest.
     Returns (if keep then a # rest else rest)))"

fun map_outcome :: "('a \<Rightarrow> 'b outcome) \<Rightarrow> 'a list \<Rightarrow> 'b list outcome" where
  "map_outcome f [] = Returns []"
| "map_outcome f (a # as) =
     bind_outcome (f a) (\<lambda>b.
     bind_outcome (map_outcome f as) (\<lambda>bs.
     Returns (b # bs)))"

text \<open>
  \<^verbatim>\<open>Array.prototype.reduce\<close> without an initial value: a \<^verbatim>\<open>TypeError\<close> on the empty array,
  otherwise a left fold that starts from the first element.
\<close>

fun reduce_no_initial :: "('a \<Rightarrow> 'a \<Rightarrow> 'a) \<Rightarrow> 'a list \<Rightarrow> 'a outcome" where
  "reduce_no_initial f [] = Throws"
| "reduce_no_initial f (a # as) = Returns (foldl f a as)"

text \<open>
  Arithmetic is exact (rational), not floating point. A division by zero occurs only as
  \<^verbatim>\<open>0 / 0\<close> (the sums and counts of an empty collection), which is \<^verbatim>\<open>NaN\<close>: \<open>None\<close> here.
  Every comparison with \<^verbatim>\<open>NaN\<close> is false. The product \<^verbatim>\<open>items.length * 0.4\<close> in doubles
  compares with a count as the exact product does. \<^verbatim>\<open>toFixed\<close> rounds half up on the
  exact value.
\<close>

definition js_div :: "rat \<Rightarrow> rat \<Rightarrow> rat option" where
  "js_div a b = (if b = 0 then None else Some (a / b))"

fun js_gt :: "rat option \<Rightarrow> rat \<Rightarrow> bool" where
  "js_gt None c = False"
| "js_gt (Some r) c = (r > c)"

definition pad_left :: "nat \<Rightarrow> string \<Rightarrow> string" where
  "pad_left k s = replicate (k - length s) CHR ''0'' @ s"

definition toFixed :: "nat \<Rightarrow> rat option \<Rightarrow> string" where
  "toFixed f v =
    (case v of
       None \<Rightarrow> ''NaN''
     | Some r \<Rightarrow>
        (let n = nat \<lfloor>\<bar>r\<bar> * 10 ^ f + 1 / 2\<rfloor>;
             m = pad_left (f + 1) (digits n);
             body = (if f = 0 then m
                     else take (length m - f) m @ ''.'' @ drop (length m - f) m)
         in if r < 0 then CHR ''-'' # body else body))"

text \<open>\<^verbatim>\<open>generateDataInsights\<close>, block by block.\<close>

definition in_quadrant :: "host \<Rightarrow> quadrant list \<Rightarrow> quadrant \<Rightarrow> item \<Rightarrow> bool outcome" where
  "in_quadrant h quadrants q i =
    bind_outcome (getQuadrantForItem h (item_x i) (item_y i) quadrants) (\<lambda>itemQuadrant.
    Returns (map_option qid itemQuadrant = Some (qid q)))"

definition quadrantCounts :: "host \<Rightarrow> item list \<Rightarrow> quadrant list \<Rightarrow> (quadrant \<times> item list) list outcome" where
  "quadrantCounts h its quadrants =
    map_outcome (\<lambda>q. bind_outcome (filter_outcome (in_quadrant h quadrants q) its)
                        (\<lambda>found. Returns (q, found))) quadrants"

definition larger :: "(quadrant \<times> item list) \<Rightarrow> (quadrant \<times> item list) \<Rightarrow> (quadrant \<times> item list)" where
  "larger mx current = (if length (snd current) > length (snd mx) then current else mx)"

definition is_outlier :: "item \<Rightarrow> bool" where
  "is_outlier i = ((item_x i > 90 \<or> item_x i < 10) \<or> (item_y i > 90 \<or> item_y i < 10))"

definition clustering_insight :: "item list \<Rightarrow> (quadrant \<times> item list) \<Rightarrow> insight" where
  "clustering_insight its maxQuadrant =
    \<lparr>insight_type = Distribution, title = ''Clustering Detected'',
     insight_description =
       toFixed 0 (map_option (\<lambda>r. r * 100)
                    (js_div (of_nat (length (snd maxQuadrant))) (of_nat (length its))))
       @ ''% of items are concentrated in the \"'' @ name (fst maxQuadrant)
       @ ''\" quadrant, suggesting a clear pattern in your data.'',
     insight_icon = BullseyeIcon, insight_color = ''blue'',
     insight_items = Some (snd maxQuadrant)\<rparr>"

definition outlier_insight :: "item list \<Rightarrow> insight" where
  "outlier_insight outliers =
    \<lparr>insight_type = Outliers, title = ''Extreme Positions Identified'',
     insight_description = digits (length outliers)
       @ '' items are positioned at extreme values, representing either exceptional cases or edge scenarios worth special attention.'',
     insight_icon = ExclamationTriangleIcon, insight_color = ''red'',
     insight_items = Some outliers\<rparr>"

definition after_distribution :: "item list \<Rightarrow> axes \<Rightarrow> insight list" where
  "after_distribution its ax =
    (let highConfidenceItems = filter (\<lambda>i. confidence i > 8 / 10) its;
         lowConfidenceItems = filter (\<lambda>i. confidence i < 6 / 10) its;
         outliers = filter is_outlier its;
         xAverage = js_div (of_int (foldl (\<lambda>s i. s + item_x i) 0 its)) (of_nat (length its));
         yAverage = js_div (of_int (foldl (\<lambda>s i. s + item_y i) 0 its)) (of_nat (length its));
         topRightItems = filter (\<lambda>i. item_x i > 70 \<and> item_y i > 70) its
     in
       (if of_nat (length highConfidenceItems) > (of_nat (length its) :: rat) * (7 / 10)
        then [\<lparr>insight_type = Confidence, title = ''High Analysis Confidence'',
               insight_description = digits (length highConfidenceItems) @ '' out of ''
                 @ digits (length its)
                 @ '' items have high confidence scores (>80%), indicating reliable positioning.'',
               insight_icon = ArrowTrendingUpIcon, insight_color = ''green'',
               insight_items = Some highConfidenceItems\<rparr>]
        else [])
     @ (if of_nat (length lowConfidenceItems) > (of_nat (length its) :: rat) * (3 / 10)
        then [\<lparr>insight_type = Confidence, title = ''Some Uncertain Positions'',
               insight_description = digits (length lowConfidenceItems)
                 @ '' items have lower confidence scores, which may require additional context or data for better positioning.'',
               insight_icon = ExclamationTriangleIcon, insight_color = ''yellow'',
               insight_items = Some lowConfidenceItems\<rparr>]
        else [])
     @ (if length outliers > 0 then [outlier_insight outliers] else [])
     @ (if js_gt xAverage 60
        then [\<lparr>insight_type = Patterns, title = ''High '' @ axis_x ax @ '' Tendency'',
               insight_description = ''Most items show high '' @ toLowerCase (axis_x ax)
                 @ '' values (average: '' @ toFixed 1 xAverage
                 @ ''), indicating a general trend toward this characteristic.'',
               insight_icon = ArrowTrendingUpIcon, insight_color = ''blue'',
               insight_items = None\<rparr>]
        else [])
     @ (if js_gt yAverage 60
        then [\<lparr>insight_type = Patterns, title = ''High '' @ axis_y ax @ '' Pattern'',
               insight_description = ''The majority of items demonstrate high ''
                 @ toLowerCase (axis_y ax) @ '' (average: '' @ toFixed 1 yAverage
                 @ ''), suggesting this is a dominant theme.'',
               insight_icon = ArrowTrendingUpIcon, insight_color = ''purple'',
               insight_items = None\<rparr>]
        else [])
     @ (if length topRightItems > 0
        then [\<lparr>insight_type = Recommendations, title = ''Priority Focus Areas'',
               insight_description = digits (length topRightItems) @ '' items in the high-''
                 @ axis_x ax @ ''/high-'' @ axis_y ax
                 @ '' area represent your highest priority opportunities requiring immediate attention.'',
               insight_icon = BullseyeIcon, insight_color = ''green'',
               insight_items = Some topRightItems\<rparr>]
        else []))"

definition generateDataInsights :: "host \<Rightarrow> item list \<Rightarrow> quadrant list \<Rightarrow> axes \<Rightarrow> insight list outcome" where
  "generateDataInsights h its quadrants ax =
    bind_outcome (quadrantCounts h its quadrants) (\<lambda>counts.
    bind_outcome (reduce_no_initial larger counts) (\<lambda>maxQuadrant.
    Returns
      ((if (of_nat (length (snd maxQuadrant)) :: rat) > of_nat (length its) * (4 / 10)
        then [clustering_insight its maxQuadrant] else [])
       @ after_distribution its ax)))"

text \<open>The overall confidence of \<^verbatim>\<open>analyzeContent\<close> (\<^verbatim>\<open>src/lib/openai.ts\<close>).\<close>

definition overallConfidence :: "item list \<Rightarrow> rat" where
  "overallConfidence its =
    (if length its > 0 then foldl (\<lambda>s i. s + confidence i) 0 its / of_nat (length its) else 0)"

text \<open>
  The items of a quadrant as the aggregator counts them, written with \<open>find\<close>; and
  sample data.
\<close>

definition members :: "host \<Rightarrow> quadrant list \<Rightarrow> item list \<Rightarrow> quadrant \<Rightarrow> item list" where
  "members h quadrants its q =
    filter (\<lambda>i. map_option qid (find (rule_holds h (item_x i) (item_y i)) quadrants) = Some (qid q)) its"

definition mk_item :: "string \<Rightarrow> int \<Rightarrow> int \<Rightarrow> rat \<Rightarrow> item" where
  "mk_item n a b c = \<lparr>item_name = n, item_x = a, item_y = b, confidence = c,
     rationale = '''', citations = []\<rparr>"

definition sample_axes :: axes where
  "sample_axes = \<lparr>axis_x = ''Urgency'', axis_y = ''Impact'', axes_rationale = ''''\<rparr>"

section \<open>Conditions and sample data for the aggregator\<close>


definition no_divergence :: "host \<Rightarrow> item list \<Rightarrow> quadrant list \<Rightarrow> bool" where
  "no_divergence h its quadrants =
    (\<forall>i\<in>set its. \<forall>q\<in>set quadrants. evaluateQuadrantRule h (rule q) (item_x i) (item_y i) \<noteq> Diverges)"



section \<open>The marker colours of the chart (\<^verbatim>\<open>plotData\<close> of the results component)\<close>

text \<open>
  The callback given to \<^verbatim>\<open>result.quadrants.find\<close>: a test on the quadrant's id and the
  item's position against the fixed midlines, not on the quadrant's rule.
\<close>

definition position_test :: "item \<Rightarrow> quadrant \<Rightarrow> bool" where
  "position_test i q =
    (let midX = 50; midY = 50 in
     if qid q = ''Q1'' then item_x i \<ge> midX \<and> item_y i \<ge> midY
     else if qid q = ''Q2'' then item_x i < midX \<and> item_y i \<ge> midY
     else if qid q = ''Q3'' then item_x i < midX \<and> item_y i < midY
     else if qid q = ''Q4'' then item_x i \<ge> midX \<and> item_y i < midY
     else False)"

definition marker_quadrant :: "quadrant list \<Rightarrow> item \<Rightarrow> quadrant option" where
  "marker_quadrant quadrants i = find (position_test i) quadrants"

definition marker_color :: "quadrant list \<Rightarrow> item \<Rightarrow> string" where
  "marker_color quadrants i =
    (case marker_quadrant quadrants i of
       None \<Rightarrow> ''#3b82f6''
     | Some q \<Rightarrow> if color q = [] then ''#3b82f6'' else color q)"

text \<open>A quadrant set that is not the default one.\<close>

definition custom_quadrants :: "quadrant list" where
  "custom_quadrants =
    [\<lparr>qid = ''left'', name = ''Left half'', description = ''Items with low x'',
      implication = ''Wait'', rule = ''x < 50'', color = ''#111111''\<rparr>,
     \<lparr>qid = ''right'', name = ''Right half'', description = ''Items with high x'',
      implication = ''Act'', rule = ''x >= 50'', color = ''#222222''\<rparr>]"

section \<open>The analyze route (\<^verbatim>\<open>src/app/api/analyze/route.ts\<close>)\<close>

text \<open>
  The analysis result and its metadata; the fields that the route adds are optional.
  \<^verbatim>\<open>createMockAnalysis\<close> is the placeholder of \<^verbatim>\<open>src/lib/openai.ts\<close>.
\<close>

record metadata =
  processing_time :: rat
  meta_confidence :: rat
  analysisId :: "string option"
  timestamp :: "string option"
  meta_domain :: "string option"
  textLength :: "nat option"
  usingMockData :: "bool option"

record analysis_result =
  result_axes :: axes
  result_items :: "item list"
  result_quadrants :: "quadrant list"
  result_insights :: "string list"
  result_metadata :: metadata

definition createMockAnalysis :: "string \<Rightarrow> string \<Rightarrow> analysis_result" where
  "createMockAnalysis text domain =
    (let mockItems =
       [\<lparr>item_name = ''Item A'', item_x = 75, item_y = 85, confidence = 9 / 10,
         rationale = ''High on both dimensions based on content analysis'',
         citations = [''Sample citation from text...'']\<rparr>,
        \<lparr>item_name = ''Item B'', item_x = 25, item_y = 65, confidence = 8 / 10,
         rationale = ''Low X but moderate Y based on characteristics'',
         citations = [''Another sample citation...'']\<rparr>,
        \<lparr>item_name = ''Item C'', item_x = 60, item_y = 30, confidence = 7 / 10,
         rationale = ''Moderate X but low Y value'',
         citations = [''Third citation example...'']\<rparr>];
       ax = \<lparr>axis_x = (if domain = ''risk'' then ''Probability'' else ''Importance''),
             axis_y = (if domain = ''risk'' then ''Impact'' else ''Urgency''),
             axes_rationale = ''These variables provide the best separation of items in the content''\<rparr>
     in \<lparr>result_axes = ax, result_items = mockItems,
         result_quadrants = generateDefaultQuadrants (axis_x ax) (axis_y ax),
         result_insights =
           [''Most items cluster in the high-impact region'',
            ''There is a clear separation between high and low probability items'',
            ''Focus attention on the high-probability, high-impact quadrant first''],
         result_metadata = \<lparr>processing_time = 5 / 2, meta_confidence = 8 / 10,
           analysisId = None, timestamp = None, meta_domain = None, textLength = None,
           usingMockData = None\<rparr>\<rparr>)"

text \<open>
  The handler \<^verbatim>\<open>POST\<close>. Its surroundings are parameters: whether the API key is set, the
  outcome of \<^verbatim>\<open>analyzeContent\<close>, the outcome of storing the result (a throw there is
  caught and ignored), the generated id and the time stamp. The body is \<open>None\<close> when
  \<^verbatim>\<open>request.json()\<close> throws, which the outer \<^verbatim>\<open>catch\<close> answers with status 500.
\<close>

record request =
  req_text :: "string option"
  domain_hint :: "string option"

datatype response = Ok200 analysis_result | Bad400 string | Error500

definition is_space :: "char \<Rightarrow> bool" where
  "is_space c = ((of_char c :: nat) \<in> {9, 10, 11, 12, 13, 32})"

definition trim :: "string \<Rightarrow> string" where
  "trim s = rev (dropWhile is_space (rev (dropWhile is_space s)))"

definition unshift_insight :: "string \<Rightarrow> analysis_result \<Rightarrow> analysis_result" where
  "unshift_insight note r = r\<lparr>result_insights := note # result_insights r\<rparr>"

definition POST ::
  "bool \<Rightarrow> (string \<Rightarrow> string \<Rightarrow> analysis_result outcome) \<Rightarrow> unit outcome \<Rightarrow> string \<Rightarrow> string
    \<Rightarrow> request option \<Rightarrow> response outcome" where
  "POST hasApiKey analyzeContent storeAnalysisResult newId now parsed =
    (case parsed of None \<Rightarrow> Returns Error500 | Some body \<Rightarrow>
     case req_text body of
       None \<Rightarrow> Returns (Bad400 ''Text content is required and must be at least 10 characters long'')
     | Some text \<Rightarrow>
        if text = [] \<or> length (trim text) < 10
        then Returns (Bad400 ''Text content is required and must be at least 10 characters long'')
        else if length text > 50000
        then Returns (Bad400 ''Text content exceeds maximum length of 50,000 characters'')
        else
          (let domain = (case domain_hint body of None \<Rightarrow> ''auto''
                         | Some d \<Rightarrow> if d = [] then ''auto'' else d) in
           if domain \<notin> set [''risk'', ''priority'', ''investments'', ''sports'', ''auto'']
           then Returns (Bad400 ''Invalid domain hint'')
           else
             bind_outcome
               (if hasApiKey
                then (case analyzeContent text domain of
                        Returns r \<Rightarrow> Returns r
                      | Throws \<Rightarrow> Returns (unshift_insight
                          ''Note: This is a demonstration analysis. Configure OpenAI API key for full AI-powered analysis.''
                          (createMockAnalysis text domain))
                      | Diverges \<Rightarrow> Diverges)
                else Returns (unshift_insight
                       ''Demo Mode: This is sample analysis. Configure OpenAI API key for AI-powered analysis.''
                       (createMockAnalysis text domain)))
               (\<lambda>analysisResult.
             bind_outcome
               (case storeAnalysisResult of Diverges \<Rightarrow> Diverges | _ \<Rightarrow> Returns ())
               (\<lambda>_.
             Returns (Ok200 (analysisResult\<lparr>result_metadata :=
                (result_metadata analysisResult)\<lparr>analysisId := Some newId, timestamp := Some now,
                   meta_domain := Some domain, textLength := Some (length text),
                   usingMockData := Some (\<not> hasApiKey)\<rparr>\<rparr>))))))"

text \<open>A valid request, an analyzer that fails, and two readings of a response.\<close>

definition sample_request :: request where
  "sample_request = \<lparr>req_text = Some ''Which of our risks matter most?'', domain_hint = Some ''risk''\<rparr>"

definition failing_analyzer :: "string \<Rightarrow> string \<Rightarrow> analysis_result outcome" where
  "failing_analyzer text domain = Throws"

definition mock_flag :: "response outcome \<Rightarrow> bool option" where
  "mock_flag out = (case out of Returns (Ok200 r) \<Rightarrow> usingMockData (result_metadata r) | _ \<Rightarrow> None)"

definition response_items :: "response outcome \<Rightarrow> item list option" where
  "response_items out = (case out of Returns (Ok200 r) \<Rightarrow> Some (result_items r) | _ \<Rightarrow> None)"

section \<open>Digits and the lexer\<close>

lemma char_of_48: "char_of (48::nat) = CHR ''0''"
  by code_simp

lemma is_digit_digit_char: "d < 10 \<Longrightarrow> is_digit (digit_char d)"
  by (simp add: is_digit_def digit_char_def)

lemma digit_val_digit_char: "d < 10 \<Longrightarrow> digit_val (digit_char d) = d"
  by (simp add: digit_val_def digit_char_def)

lemma digit_char_zero: "d < 10 \<Longrightarrow> (digit_char d = CHR ''0'') = (d = 0)"
proof -
  assume d: "d < 10"
  have "digit_char d = CHR ''0'' \<Longrightarrow> d = 0"
  proof -
    assume "digit_char d = CHR ''0''"
    then have "digit_val (digit_char d) = digit_val CHR ''0''" by simp
    with d show "d = 0" by (simp add: digit_val_digit_char) (simp add: digit_val_def)
  qed
  moreover have "digit_char 0 = CHR ''0''" by (simp add: digit_char_def char_of_48)
  ultimately show ?thesis by auto
qed

lemma digits_all_digit: "c \<in> set (digits n) \<Longrightarrow> is_digit c"
proof (induction n arbitrary: c rule: digits.induct)
  case (1 n)
  show ?case
  proof (cases "n < 10")
    case True
    with "1.prems" show ?thesis by (subst (asm) digits.simps) (simp add: is_digit_digit_char)
  next
    case False
    with "1.prems" have "c \<in> set (digits (n div 10)) \<or> c = digit_char (n mod 10)"
      by (subst (asm) digits.simps) auto
    with False "1.IH" show ?thesis by (auto simp: is_digit_digit_char)
  qed
qed

lemma digits_not_Nil: "digits n \<noteq> []"
  by (subst digits.simps) simp

lemma num_of_snoc: "num_of (ds @ [c]) = 10 * num_of ds + digit_val c"
  by (simp add: num_of_def)

lemma num_of_digits: "num_of (digits n) = n"
proof (induction n rule: digits.induct)
  case (1 n)
  show ?case
  proof (cases "n < 10")
    case True
    then show ?thesis by (subst digits.simps) (simp add: num_of_def digit_val_digit_char)
  next
    case False
    with "1.IH" show ?thesis
      by (subst digits.simps) (simp add: num_of_snoc digit_val_digit_char)
  qed
qed

lemma hd_digits_zero: "hd (digits n) = CHR ''0'' \<Longrightarrow> n = 0"
proof (induction n rule: digits.induct)
  case (1 n)
  show ?case
  proof (cases "n < 10")
    case True
    with "1.prems" show ?thesis by (subst (asm) digits.simps) (simp add: digit_char_zero)
  next
    case False
    with "1.prems" have "hd (digits (n div 10)) = CHR ''0''"
      by (subst (asm) digits.simps) (simp add: digits_not_Nil)
    with False "1.IH" have "n div 10 = 0" by simp
    with False show ?thesis by simp
  qed
qed

lemma digits_zero: "digits 0 = ''0''"
  by (subst digits.simps) (simp add: digit_char_def char_of_48)


lemma not_digit_space: "\<not> is_digit CHR '' ''"
  by (simp add: is_digit_def)

lemma tokenize_digits:
  assumes "r = [] \<or> \<not> is_digit (hd r)" and "int n \<le> max_safe_integer"
  shows "tokenize (digits n @ r) = map_option (Cons (TNum n)) (tokenize r)"
proof -
  obtain c ds where cd: "digits n = c # ds" using digits_not_Nil by (cases "digits n") auto
  have all: "\<forall>d\<in>set (c # ds). is_digit d" using digits_all_digit cd by metis
  from assms(1) have tw: "takeWhile is_digit (ds @ r) = ds"
    using all by (cases r) auto
  from assms(1) have dw: "dropWhile is_digit (ds @ r) = r"
    using all by (cases r) auto
  have c: "is_digit c" "c \<noteq> CHR '' ''" using all not_digit_space by auto
  have z: "c = CHR ''0'' \<Longrightarrow> ds = []"
  proof -
    assume "c = CHR ''0''"
    then have "n = 0" using hd_digits_zero [of n] cd by simp
    then show "ds = []" using cd digits_zero by simp
  qed
  have "num_of (c # ds) = n" using num_of_digits [of n] cd by simp
  then show ?thesis using cd tw dw c z assms(2) by auto
qed

lemma tokenize_spaces: "tokenize (replicate k CHR '' '' @ r) = tokenize r"
  by (induction k) simp_all

section \<open>Writing the coordinates into a rule\<close>

lemma replace_all_append: "replace_all c s (a @ b) = replace_all c s a @ replace_all c s b"
  by (simp add: replace_all_def)

lemma replace_all_absent: "c \<notin> set t \<Longrightarrow> replace_all c s t = t"
  by (induction t) (auto simp: replace_all_def)

lemma replace_all_single: "replace_all c s [c] = s"
  by (simp add: replace_all_def)

lemma digit_not_xy: "is_digit c \<Longrightarrow> c \<noteq> CHR ''x'' \<and> c \<noteq> CHR ''y''"
  by (auto simp: is_digit_def)

lemma digits_no_xy: "CHR ''x'' \<notin> set (digits n) \<and> CHR ''y'' \<notin> set (digits n)"
  using digits_all_digit digit_not_xy by blast

lemma toString_no_y: "CHR ''y'' \<notin> set (toString i)"
  using digits_no_xy by (simp add: toString_def)

lemma expression_of_append:
  "expression_of (a @ b) x y = expression_of a x y @ expression_of b x y"
  by (simp add: expression_of_def replace_all_append)

lemma expression_of_plain:
  "CHR ''x'' \<notin> set t \<Longrightarrow> CHR ''y'' \<notin> set t \<Longrightarrow> expression_of t x y = t"
  by (simp add: expression_of_def replace_all_absent)

lemma expression_of_x: "expression_of ''x'' x y = toString x"
  by (simp add: expression_of_def replace_all_single replace_all_absent toString_no_y)

lemma expression_of_y: "expression_of ''y'' x y = toString y"
  by (simp add: expression_of_def replace_all_def)

lemma expression_of_sp: "expression_of (sp k) x y = sp k"
  by (rule expression_of_plain) (auto simp: sp_def)

lemma expression_of_op: "expression_of (op_text f) x y = op_text f"
  by (rule expression_of_plain) (cases f; simp)+

lemma expression_of_digits: "expression_of (digits n) x y = digits n"
  by (rule expression_of_plain) (simp_all add: digits_no_xy)

lemma expression_of_punct:
  "expression_of ''||'' x y = ''||''" "expression_of ''&&'' x y = ''&&''"
  "expression_of ''('' x y = ''(''" "expression_of '')'' x y = '')''"
  by (simp_all add: expression_of_def replace_all_def)

lemma tokenize_toString:
  assumes "int_text_ok r" and "safe_int i"
  shows "tokenize (toString i @ r) = map_option ((@) (int_tokens i)) (tokenize r)"
proof (cases "i < 0")
  case False
  then show ?thesis using tokenize_digits [of r "nat i"] assms
    by (simp add: toString_def int_tokens_def int_text_ok_def safe_int_def) (cases "tokenize r"; simp)
next
  case True
  obtain c ds where cd: "digits (nat (- i)) = c # ds"
    using digits_not_Nil by (cases "digits (nat (- i))") auto
  then have "is_digit c" using digits_all_digit [of c "nat (- i)"] by simp
  then have c: "c \<noteq> CHR ''-''" "c \<noteq> CHR ''=''" by (auto simp: is_digit_def)
  have "lex_op (CHR ''-'' # c # ds @ r) = Some (TMinus, 1)"
    using c by (simp add: lex_op_def starts_with_def)
  moreover have "\<not> is_digit CHR ''-''" by (simp add: is_digit_def)
  ultimately have "tokenize (CHR ''-'' # (c # ds) @ r) = map_option (Cons TMinus) (tokenize ((c # ds) @ r))"
    by simp
  then show ?thesis using True tokenize_digits [of r "nat (- i)"] assms cd
    by (simp add: toString_def int_tokens_def int_text_ok_def safe_int_def) (cases "tokenize r"; simp)
qed

lemma tokenize_operand:
  assumes "int_text_ok r" and "safe_int (operand_value x y a)"
  shows "tokenize (expression_of (operand_text a) x y @ r)
         = map_option ((@) (int_tokens (operand_value x y a))) (tokenize r)"
proof (cases a)
  case OpX
  then show ?thesis using tokenize_toString [OF assms] by (simp add: expression_of_x)
next
  case OpY
  then show ?thesis using tokenize_toString [OF assms] by (simp add: expression_of_y)
next
  case (OpNum n)
  then show ?thesis using tokenize_toString [OF assms]
    by (simp add: expression_of_digits toString_def)
qed

lemma cmp_start_sp: "cmp_start r \<Longrightarrow> cmp_start (sp k @ r)"
  by (cases k) (simp_all add: sp_def)

lemma cmp_start_toString: "cmp_start (toString i @ r)"
proof -
  obtain c ds where cd: "digits (nat \<bar>i\<bar>) = c # ds"
    using digits_not_Nil by (cases "digits (nat \<bar>i\<bar>)") auto
  then have "is_digit c" using digits_all_digit [of c "nat \<bar>i\<bar>"] by simp
  then show ?thesis using cd by (cases "i < 0") (simp_all add: toString_def)
qed

lemma cmp_start_operand: "cmp_start (expression_of (operand_text a) x y @ r)"
proof (cases a)
  case (OpNum n)
  then show ?thesis using cmp_start_toString [of "int n"]
    by (simp add: expression_of_digits toString_def)
qed (simp_all add: expression_of_x expression_of_y cmp_start_toString)

lemma tokenize_op:
  assumes "cmp_start r"
  shows "tokenize (op_text f @ r) = map_option (Cons (op_token f)) (tokenize r)"
proof -
  obtain c cs where r: "r = c # cs" using assms by (cases r) auto
  have "c = CHR '' '' \<or> c = CHR ''-'' \<or> c = CHR ''('' \<or> is_digit c" using assms r by simp
  then have c: "c \<noteq> CHR ''=''" "c \<noteq> CHR ''<''" "c \<noteq> CHR ''>''" "c \<noteq> CHR ''!''"
    by (auto simp: is_digit_def)
  show ?thesis using c r
    by (cases f) (simp_all add: lex_op_def starts_with_def is_digit_def)
qed

lemma tokenize_andor:
  assumes "cmp_start r"
  shows "tokenize (''||'' @ r) = map_option (Cons TOr) (tokenize r)"
    and "tokenize (''&&'' @ r) = map_option (Cons TAnd) (tokenize r)"
proof -
  obtain c cs where r: "r = c # cs" using assms by (cases r) auto
  have "c = CHR '' '' \<or> c = CHR ''-'' \<or> c = CHR ''('' \<or> is_digit c" using assms r by simp
  then have c: "c \<noteq> CHR ''=''" by (auto simp: is_digit_def)
  show "tokenize (''||'' @ r) = map_option (Cons TOr) (tokenize r)"
    using c r by (simp add: lex_op_def starts_with_def is_digit_def)
  show "tokenize (''&&'' @ r) = map_option (Cons TAnd) (tokenize r)"
    using c r by (simp add: lex_op_def starts_with_def is_digit_def)
qed

lemma tokenize_paren:
  "tokenize (''('' @ r) = map_option (Cons TLParen) (tokenize r)"
  "tokenize ('')'' @ r) = map_option (Cons TRParen) (tokenize r)"
  by (simp_all add: lex_op_def starts_with_def is_digit_def)

lemma tokenize_sp: "tokenize (sp k @ r) = tokenize r"
  by (simp add: sp_def tokenize_spaces)

lemma int_text_ok_simps:
  "int_text_ok []" "int_text_ok (sp k @ op_text f @ r)" "int_text_ok (sp k @ ''||'' @ r)"
  "int_text_ok (sp k @ ''&&'' @ r)" "int_text_ok (sp k @ '')'' @ r)"
  by (cases k; cases f; simp add: int_text_ok_def sp_def is_digit_def)+

section \<open>Rules of the grammar are evaluated as the grammar reads them\<close>

lemma cmp_start_texts:
  "cmp_start (expression_of (or_text e) x y @ r)"
  "cmp_start (expression_of (and_text a) x y @ r)"
  "cmp_start (expression_of (cmp_text c) x y @ r)"
proof (induction e and a and c arbitrary: r and r and r)
  case (Compare i a j f k b)
  show ?case using cmp_start_sp [OF cmp_start_operand]
    by (simp add: expression_of_append expression_of_sp)
next
  case (Group i e j)
  have "expression_of (cmp_text (Group i e j)) x y @ r
        = sp i @ ''('' @ expression_of (or_text e) x y @ sp j @ '')'' @ r"
    by (simp only: cmp_text.simps expression_of_append expression_of_sp expression_of_punct append_assoc)
  then show ?case using cmp_start_sp [of "''('' @ expression_of (or_text e) x y @ sp j @ '')'' @ r" i]
    by simp
qed (simp_all add: expression_of_append)

lemma map_option_append:
  "map_option ((@) a) (map_option ((@) b) t) = map_option ((@) (a @ b)) t"
  by (cases t) simp_all

lemma map_option_Cons:
  "map_option ((#) a) (map_option ((@) b) t) = map_option ((@) (a # b)) t"
  "map_option ((@) b) (map_option ((#) a) t) = map_option ((@) (b @ [a])) t"
  by (cases t; simp)+

lemma operand_value_safe:
  "operand_safe a \<Longrightarrow> safe_int x \<Longrightarrow> safe_int y \<Longrightarrow> safe_int (operand_value x y a)"
  by (cases a) (simp_all add: safe_int_def)

lemma tokenize_texts:
  assumes sx: "safe_int x" and sy: "safe_int y"
  shows "int_text_ok r \<Longrightarrow> or_safe e \<Longrightarrow> tokenize (expression_of (or_text e) x y @ r)
      = map_option ((@) (or_tokens x y e)) (tokenize r)"
    and "int_text_ok r \<Longrightarrow> and_safe a \<Longrightarrow> tokenize (expression_of (and_text a) x y @ r)
      = map_option ((@) (and_tokens x y a)) (tokenize r)"
    and "int_text_ok r \<Longrightarrow> cmp_safe c \<Longrightarrow> tokenize (expression_of (cmp_text c) x y @ r)
      = map_option ((@) (cmp_tokens x y c)) (tokenize r)"
proof (induction e and a and c arbitrary: r and r and r)
  case (OrOne a)
  then show ?case by simp
next
  case (OrMore a k e)
  have le: "expression_of (or_text (OrMore a k e)) x y @ r
      = expression_of (and_text a) x y @ sp k @ ''||'' @ expression_of (or_text e) x y @ r"
    by (simp only: or_text.simps expression_of_append expression_of_sp expression_of_punct append_assoc)
  have "tokenize (expression_of (and_text a) x y @ sp k @ ''||'' @ expression_of (or_text e) x y @ r)
        = map_option ((@) (and_tokens x y a)) (tokenize (sp k @ ''||'' @ expression_of (or_text e) x y @ r))"
    using OrMore.prems by (intro OrMore.IH(1) int_text_ok_simps) simp
  also have "tokenize (sp k @ ''||'' @ expression_of (or_text e) x y @ r)
        = map_option ((#) TOr) (tokenize (expression_of (or_text e) x y @ r))"
    by (simp only: tokenize_sp tokenize_andor(1) [OF cmp_start_texts(1)])
  also have "tokenize (expression_of (or_text e) x y @ r) = map_option ((@) (or_tokens x y e)) (tokenize r)"
    using OrMore.prems by (intro OrMore.IH(2)) simp_all
  finally show ?case
    unfolding le by (cases "tokenize r") simp_all
next
  case (AndOne c)
  then show ?case by simp
next
  case (AndMore c k a)
  have le: "expression_of (and_text (AndMore c k a)) x y @ r
      = expression_of (cmp_text c) x y @ sp k @ ''&&'' @ expression_of (and_text a) x y @ r"
    by (simp only: and_text.simps expression_of_append expression_of_sp expression_of_punct append_assoc)
  have "tokenize (expression_of (cmp_text c) x y @ sp k @ ''&&'' @ expression_of (and_text a) x y @ r)
        = map_option ((@) (cmp_tokens x y c)) (tokenize (sp k @ ''&&'' @ expression_of (and_text a) x y @ r))"
    using AndMore.prems by (intro AndMore.IH(1) int_text_ok_simps) simp
  also have "tokenize (sp k @ ''&&'' @ expression_of (and_text a) x y @ r)
        = map_option ((#) TAnd) (tokenize (expression_of (and_text a) x y @ r))"
    by (simp only: tokenize_sp tokenize_andor(2) [OF cmp_start_texts(2)])
  also have "tokenize (expression_of (and_text a) x y @ r) = map_option ((@) (and_tokens x y a)) (tokenize r)"
    using AndMore.prems by (intro AndMore.IH(2)) simp_all
  finally show ?case
    unfolding le by (cases "tokenize r") simp_all
next
  case (Compare i a j f k b)
  have sa: "safe_int (operand_value x y a)" and sb: "safe_int (operand_value x y b)"
    using Compare.prems sx sy by (simp_all add: operand_value_safe)
  have le: "expression_of (cmp_text (Compare i a j f k b)) x y @ r
      = sp i @ expression_of (operand_text a) x y @ sp j @ op_text f @ sp k
        @ expression_of (operand_text b) x y @ r"
    by (simp only: cmp_text.simps expression_of_append expression_of_sp expression_of_op append_assoc)
  have "tokenize (sp i @ expression_of (operand_text a) x y @ sp j @ op_text f @ sp k
          @ expression_of (operand_text b) x y @ r)
        = map_option ((@) (int_tokens (operand_value x y a)))
            (tokenize (sp j @ op_text f @ sp k @ expression_of (operand_text b) x y @ r))"
    by (simp only: tokenize_sp tokenize_operand [OF int_text_ok_simps(2) sa])
  also have "tokenize (sp j @ op_text f @ sp k @ expression_of (operand_text b) x y @ r)
        = map_option ((#) (op_token f)) (tokenize (expression_of (operand_text b) x y @ r))"
    using tokenize_op [OF cmp_start_sp [OF cmp_start_operand], of f k b x y r]
    by (simp only: tokenize_sp)
  also have "tokenize (expression_of (operand_text b) x y @ r)
        = map_option ((@) (int_tokens (operand_value x y b))) (tokenize r)"
    using Compare.prems(1) sb by (rule tokenize_operand)
  finally show ?case
    unfolding le by (cases "tokenize r") simp_all
next
  case (Group i e j)
  have le: "expression_of (cmp_text (Group i e j)) x y @ r
      = sp i @ ''('' @ expression_of (or_text e) x y @ sp j @ '')'' @ r"
    by (simp only: cmp_text.simps expression_of_append expression_of_sp expression_of_punct append_assoc)
  have "tokenize (sp i @ ''('' @ expression_of (or_text e) x y @ sp j @ '')'' @ r)
        = map_option ((#) TLParen) (tokenize (expression_of (or_text e) x y @ sp j @ '')'' @ r))"
    by (simp only: tokenize_sp tokenize_paren)
  also have "tokenize (expression_of (or_text e) x y @ sp j @ '')'' @ r)
        = map_option ((@) (or_tokens x y e)) (tokenize (sp j @ '')'' @ r))"
    using Group.prems by (intro Group.IH int_text_ok_simps) simp
  also have "tokenize (sp j @ '')'' @ r) = map_option ((#) TRParen) (tokenize r)"
    by (simp only: tokenize_sp tokenize_paren)
  finally show ?case
    unfolding le by (cases "tokenize r") simp_all
qed

lemma parse_num_int_tokens: "parse_num (int_tokens i @ r) = Some (i, r)"
  by (simp add: int_tokens_def)

lemma relop_op_token: "relop (op_token f) = Some (op_holds f)"
  by (cases f) (simp_all add: fun_eq_iff)

lemma int_tokens_not_Nil: "int_tokens i \<noteq> []" "hd (int_tokens i) \<noteq> TLParen"
  by (simp_all add: int_tokens_def)

lemma parse_rel_compare:
  "parse_rel (int_tokens a @ op_token f # int_tokens b @ r) = Some (JBool (op_holds f a b), r)"
  by (simp add: parse_rel_def parse_num_int_tokens relop_op_token)

lemma parse_tokens:
  "or_rest_ok r \<Longrightarrow> parse_or (or_tokens x y e @ r) = Some (JBool (or_holds x y e), r)"
  "and_rest_ok r \<Longrightarrow> parse_and (and_tokens x y a @ r) = Some (JBool (and_holds x y a), r)"
  "parse_cmp (cmp_tokens x y c @ r) = Some (JBool (cmp_holds x y c), r)"
proof (induction e and a and c arbitrary: r and r and r)
  case (OrOne a)
  have "parse_and (and_tokens x y a @ r) = Some (JBool (and_holds x y a), r)"
    using OrOne.IH [of r] OrOne.prems by (auto simp: or_rest_ok_def and_rest_ok_def)
  then show ?case using OrOne.prems
    by (subst parse_or.simps) (auto simp: or_rest_ok_def)
next
  case (OrMore a k e)
  have "parse_and (and_tokens x y a @ TOr # or_tokens x y e @ r)
        = Some (JBool (and_holds x y a), TOr # or_tokens x y e @ r)"
    by (rule OrMore.IH(1)) (simp add: and_rest_ok_def)
  moreover have "parse_or (or_tokens x y e @ r) = Some (JBool (or_holds x y e), r)"
    by (rule OrMore.IH(2)) (rule OrMore.prems)
  ultimately show ?case
    by (subst parse_or.simps) (simp add: js_or_def)
next
  case (AndOne c)
  have "parse_cmp (cmp_tokens x y c @ r) = Some (JBool (cmp_holds x y c), r)"
    by (rule AndOne.IH)
  then show ?case using AndOne.prems
    by (subst parse_and.simps) (auto simp: and_rest_ok_def)
next
  case (AndMore c k a)
  have "parse_cmp (cmp_tokens x y c @ TAnd # and_tokens x y a @ r)
        = Some (JBool (cmp_holds x y c), TAnd # and_tokens x y a @ r)"
    by (rule AndMore.IH(1))
  moreover have "parse_and (and_tokens x y a @ r) = Some (JBool (and_holds x y a), r)"
    by (rule AndMore.IH(2)) (rule AndMore.prems)
  ultimately show ?case
    by (subst parse_and.simps) (simp add: js_and_def)
next
  case (Compare i a j f k b)
  show ?case
    by (subst parse_cmp.simps) (simp add: int_tokens_not_Nil parse_rel_compare)
next
  case (Group i e j)
  have "parse_or (or_tokens x y e @ TRParen # r) = Some (JBool (or_holds x y e), TRParen # r)"
    by (rule Group.IH) (simp add: or_rest_ok_def)
  then show ?case
    by (subst parse_cmp.simps) simp
qed

lemma js_fragment_rule_text:
  assumes "safe_int x" and "safe_int y" and "or_safe e"
  shows "js_fragment (''return '' @ expression_of (rule_text e k) x y)
    = Some (Returns (JBool (or_holds x y e)))"
proof -
  have "int_text_ok (sp k @ [])"
    by (cases k; simp add: int_text_ok_def sp_def is_digit_def)
  then have "tokenize (expression_of (or_text e) x y @ sp k @ [])
        = map_option ((@) (or_tokens x y e)) (tokenize (sp k @ []))"
    using assms by (intro tokenize_texts(1))
  moreover have "tokenize (sp k @ []) = Some []" by (simp only: tokenize_sp tokenize.simps)
  ultimately have "tokenize (expression_of (rule_text e k) x y) = Some (or_tokens x y e)"
    by (simp add: rule_text_def expression_of_append expression_of_sp)
  moreover have "parse_or (or_tokens x y e @ []) = Some (JBool (or_holds x y e), [])"
    by (rule parse_tokens(1)) (simp add: or_rest_ok_def)
  ultimately show ?thesis
    by (simp add: js_fragment_def starts_with_def)
qed

lemma evaluate_rule_text:
  assumes "safe_int x" and "safe_int y" and "or_safe e"
  shows "evaluateQuadrantRule h (rule_text e k) x y = Returns (JBool (or_holds x y e))"
  using js_fragment_rule_text [OF assms, of k]
  by (simp add: evaluateQuadrantRule_def new_Function_def)

section \<open>Classification\<close>

lemma evaluateQuadrantRule_cases:
  "evaluateQuadrantRule h r x y = Diverges \<or> (\<exists>v. evaluateQuadrantRule h r x y = Returns v)"
  by (simp add: evaluateQuadrantRule_def split: outcome.splits)

lemma getQuadrantForItem_find:
  "\<forall>q\<in>set qs. evaluateQuadrantRule h (rule q) x y \<noteq> Diverges \<Longrightarrow>
   getQuadrantForItem h x y qs = Returns (find (rule_holds h x y) qs)"
proof (induction qs)
  case Nil
  show ?case by simp
next
  case (Cons q qs)
  then obtain v where v: "evaluateQuadrantRule h (rule q) x y = Returns v"
    using evaluateQuadrantRule_cases [of h "rule q" x y] by auto
  with Cons show ?case by (simp add: rule_holds_def)
qed

lemma sample_no_diverge:
  "\<forall>q\<in>set sample_quadrants. evaluateQuadrantRule throwing_host (rule q) 60 20 \<noteq> Diverges"
  by code_simp

lemma default_rule_texts:
  "''x >= 50 && y >= 50'' = rule_text high_high 0"
  "''x < 50 && y >= 50'' = rule_text low_high 0"
  "''x < 50 && y < 50'' = rule_text low_low 0"
  "''x >= 50 && y < 50'' = rule_text high_low 0"
  by code_simp+

lemma default_rules_safe:
  "or_safe high_high" "or_safe low_high" "or_safe low_low" "or_safe high_low"
  by (simp_all add: high_high_def low_high_def low_low_def high_low_def max_safe_integer_def)

lemma default_rules_eval:
  assumes "safe_int x" and "safe_int y"
  shows "evaluateQuadrantRule h ''x >= 50 && y >= 50'' x y = Returns (JBool (x \<ge> 50 \<and> y \<ge> 50))"
    and "evaluateQuadrantRule h ''x < 50 && y >= 50'' x y = Returns (JBool (x < 50 \<and> y \<ge> 50))"
    and "evaluateQuadrantRule h ''x < 50 && y < 50'' x y = Returns (JBool (x < 50 \<and> y < 50))"
    and "evaluateQuadrantRule h ''x >= 50 && y < 50'' x y = Returns (JBool (x \<ge> 50 \<and> y < 50))"
  unfolding default_rule_texts
  using evaluate_rule_text [OF assms default_rules_safe(1), of h 0]
    evaluate_rule_text [OF assms default_rules_safe(2), of h 0]
    evaluate_rule_text [OF assms default_rules_safe(3), of h 0]
    evaluate_rule_text [OF assms default_rules_safe(4), of h 0]
  by (simp_all add: high_high_def low_high_def low_low_def high_low_def)

lemma default_list:
  "\<exists>q1 q2 q3 q4. generateDefaultQuadrants xl yl = [q1, q2, q3, q4]
     \<and> qid q1 = ''Q1'' \<and> qid q2 = ''Q2'' \<and> qid q3 = ''Q3'' \<and> qid q4 = ''Q4''
     \<and> rule q1 = ''x >= 50 && y >= 50'' \<and> rule q2 = ''x < 50 && y >= 50''
     \<and> rule q3 = ''x < 50 && y < 50'' \<and> rule q4 = ''x >= 50 && y < 50''"
  by (simp add: generateDefaultQuadrants_def Let_def)


lemma default_partition_aux:
  assumes qs: "qs = [q1, q2, q3, q4]"
    and ids: "qid q1 = ''Q1''" "qid q2 = ''Q2''" "qid q3 = ''Q3''" "qid q4 = ''Q4''"
    and e1: "evaluateQuadrantRule h (rule q1) x y = Returns (JBool (x \<ge> 50 \<and> y \<ge> 50))"
    and e2: "evaluateQuadrantRule h (rule q2) x y = Returns (JBool (x < 50 \<and> y \<ge> 50))"
    and e3: "evaluateQuadrantRule h (rule q3) x y = Returns (JBool (x < 50 \<and> y < 50))"
    and e4: "evaluateQuadrantRule h (rule q4) x y = Returns (JBool (x \<ge> 50 \<and> y < 50))"
  shows "getQuadrantForItem h x y qs = Returns (Some (qs ! region_index x y))"
    and "\<forall>p\<in>set qs. rule_holds h x y p \<longleftrightarrow> p = qs ! region_index x y"
    and "rule_holds h x y (qs ! 0) = (x \<ge> 50 \<and> y \<ge> 50)"
    and "rule_holds h x y (qs ! 1) = (x < 50 \<and> y \<ge> 50)"
    and "rule_holds h x y (qs ! 2) = (x < 50 \<and> y < 50)"
    and "rule_holds h x y (qs ! 3) = (x \<ge> 50 \<and> y < 50)"
proof -
  have ne: "q1 \<noteq> q2" "q1 \<noteq> q3" "q1 \<noteq> q4" "q2 \<noteq> q3" "q2 \<noteq> q4" "q3 \<noteq> q4"
    using ids by auto
  show "getQuadrantForItem h x y qs = Returns (Some (qs ! region_index x y))"
    unfolding qs by (auto simp: e1 e2 e3 e4 region_index_def)
  show "\<forall>p\<in>set qs. rule_holds h x y p \<longleftrightarrow> p = qs ! region_index x y"
    unfolding qs using ne by (auto simp: rule_holds_def e1 e2 e3 e4 region_index_def)
  show "rule_holds h x y (qs ! 0) = (x \<ge> 50 \<and> y \<ge> 50)"
    "rule_holds h x y (qs ! 1) = (x < 50 \<and> y \<ge> 50)"
    "rule_holds h x y (qs ! 2) = (x < 50 \<and> y < 50)"
    "rule_holds h x y (qs ! 3) = (x \<ge> 50 \<and> y < 50)"
    unfolding qs by (simp_all add: rule_holds_def e1 e2 e3 e4)
qed


section \<open>Rules of the grammar, and rules that throw\<close>



lemma sample_new_Function:
  "\<forall>q\<in>set (assignment_quadrant # sample_quadrants).
      new_Function throwing_host (''return '' @ expression_of (rule q) 60 60) \<noteq> Diverges"
  by code_simp

lemma assignment_throws_60:
  "new_Function throwing_host (''return '' @ expression_of ''x = 50'' 60 60) = Throws"
  by code_simp

lemma expression_of_assignment:
  "expression_of ''x = 50'' x y = toString x @ '' = 50''"
proof -
  have "expression_of (''x'' @ '' = 50'') x y = toString x @ '' = 50''"
    by (simp only: expression_of_append expression_of_x) (simp add: expression_of_plain)
  then show ?thesis by simp
qed

lemma tokenize_assignment:
  assumes "safe_int x"
  shows "tokenize (expression_of ''x = 50'' x y) = Some (int_tokens x @ [TAssign, TNum 50])"
proof -
  have t: "tokenize '' = 50'' = Some [TAssign, TNum 50]" by code_simp
  have "int_text_ok '' = 50''" by (simp add: int_text_ok_def is_digit_def)
  then have "tokenize (toString x @ '' = 50'')
      = map_option ((@) (int_tokens x)) (tokenize '' = 50'')"
    using assms by (rule tokenize_toString)
  then show ?thesis by (simp only: expression_of_assignment t) simp
qed

lemma parse_assignment:
  "parse_or (int_tokens x @ [TAssign, TNum 50]) = Some (JNum x, [TAssign, TNum 50])"
proof -
  have "parse_rel (int_tokens x @ [TAssign, TNum 50]) = Some (JNum x, [TAssign, TNum 50])"
    by (simp add: parse_rel_def parse_num_int_tokens)
  then have "parse_cmp (int_tokens x @ [TAssign, TNum 50]) = Some (JNum x, [TAssign, TNum 50])"
    by (subst parse_cmp.simps) (simp add: int_tokens_not_Nil)
  then have "parse_and (int_tokens x @ [TAssign, TNum 50]) = Some (JNum x, [TAssign, TNum 50])"
    by (subst parse_and.simps) simp
  then show ?thesis
    by (subst parse_or.simps) simp
qed

lemma assignment_rule_false:
  assumes "safe_int x"
  shows "evaluateQuadrantRule h ''x = 50'' x y = Returns (JBool False)"
proof -
  have "js_fragment (''return '' @ expression_of ''x = 50'' x y) = Some Throws"
    using tokenize_assignment [OF assms, of y] parse_assignment [of x]
    by (simp add: js_fragment_def starts_with_def)
  then show ?thesis by (simp add: evaluateQuadrantRule_def new_Function_def)
qed

section \<open>The aggregator, the chart colours and the analyze route\<close>

lemma filter_outcome_returns:
  "\<forall>a\<in>set xs. p a = Returns (p' a) \<Longrightarrow> filter_outcome p xs = Returns (filter p' xs)"
  by (induction xs) simp_all

lemma map_outcome_returns:
  "\<forall>a\<in>set xs. f a = Returns (f' a) \<Longrightarrow> map_outcome f xs = Returns (map f' xs)"
  by (induction xs) simp_all

lemma quadrantCounts_returns:
  assumes "no_divergence h its quadrants"
  shows "quadrantCounts h its quadrants = Returns (map (\<lambda>q. (q, members h quadrants its q)) quadrants)"
proof -
  have inq: "\<And>q i. i \<in> set its \<Longrightarrow> in_quadrant h quadrants q i
      = Returns (map_option qid (find (rule_holds h (item_x i) (item_y i)) quadrants) = Some (qid q))"
    using assms getQuadrantForItem_find [of quadrants h]
    by (simp add: in_quadrant_def no_divergence_def)
  have "\<And>q. filter_outcome (in_quadrant h quadrants q) its = Returns (members h quadrants its q)"
    unfolding members_def by (rule filter_outcome_returns) (simp add: inq)
  then show ?thesis
    unfolding quadrantCounts_def by (intro map_outcome_returns) simp
qed

lemma foldl_larger:
  "foldl larger a cs \<in> set (a # cs)
   \<and> (\<forall>c\<in>set (a # cs). length (snd c) \<le> length (snd (foldl larger a cs)))"
proof (induction cs arbitrary: a)
  case Nil
  show ?case by simp
next
  case (Cons c cs)
  show ?case using Cons.IH [of "larger a c"]
    by (auto simp: larger_def split: if_splits)
qed



lemma generateDataInsights_returns:
  assumes nd: "no_divergence h its quadrants" and ne: "quadrants \<noteq> []"
  shows "\<exists>winner\<in>set quadrants.
     (\<forall>q\<in>set quadrants. length (members h quadrants its q) \<le> length (members h quadrants its winner))
     \<and> generateDataInsights h its quadrants ax = Returns
         ((if (of_nat (length (members h quadrants its winner)) :: rat) > of_nat (length its) * (4 / 10)
           then [clustering_insight its (winner, members h quadrants its winner)] else [])
          @ after_distribution its ax)"
proof -
  obtain q0 qs where q: "quadrants = q0 # qs" using ne by (cases quadrants) auto
  let ?pair = "\<lambda>q. (q, members h quadrants its q)"
  let ?w = "foldl larger (?pair q0) (map ?pair qs)"
  have w: "?w \<in> set (map ?pair quadrants)"
    "\<forall>c\<in>set (map ?pair quadrants). length (snd c) \<le> length (snd ?w)"
    using foldl_larger [of "?pair q0" "map ?pair qs"] unfolding q by simp_all
  then obtain winner where win: "winner \<in> set quadrants" "?w = ?pair winner" by auto
  have "map ?pair quadrants = ?pair q0 # map ?pair qs" using q by simp
  then have "reduce_no_initial larger (map ?pair quadrants) = Returns (?pair winner)"
    using win(2) by (simp only: reduce_no_initial.simps)
  then have "generateDataInsights h its quadrants ax = Returns
         ((if (of_nat (length (members h quadrants its winner)) :: rat) > of_nat (length its) * (4 / 10)
           then [clustering_insight its (winner, members h quadrants its winner)] else [])
          @ after_distribution its ax)"
    by (simp add: generateDataInsights_def quadrantCounts_returns [OF nd])
  moreover have "\<forall>q\<in>set quadrants. length (members h quadrants its q) \<le> length (members h quadrants its winner)"
    using w(2) win(2) by simp
  ultimately show ?thesis using win(1) by blast
qed

lemma sample_quadrants_not_Nil: "sample_quadrants \<noteq> []"
  using default_list [of "''Urgency''" "''Impact''"] unfolding sample_quadrants_def by auto







lemma default_marker:
  "marker_quadrant (generateDefaultQuadrants xl yl) i
     = Some (generateDefaultQuadrants xl yl ! region_index (item_x i) (item_y i))"
proof -
  obtain q1 q2 q3 q4 where qs: "generateDefaultQuadrants xl yl = [q1, q2, q3, q4]"
    and ids: "qid q1 = ''Q1''" "qid q2 = ''Q2''" "qid q3 = ''Q3''" "qid q4 = ''Q4''"
    using default_list [of xl yl] by blast
  show ?thesis unfolding qs marker_quadrant_def
    by (auto simp: position_test_def ids region_index_def)
qed

lemma default_classify_index:
  assumes "safe_int x" and "safe_int y"
  shows "getQuadrantForItem h x y (generateDefaultQuadrants xl yl)
     = Returns (Some (generateDefaultQuadrants xl yl ! region_index x y))"
proof -
  obtain q1 q2 q3 q4 where qs: "generateDefaultQuadrants xl yl = [q1, q2, q3, q4]"
    and ids: "qid q1 = ''Q1''" "qid q2 = ''Q2''" "qid q3 = ''Q3''" "qid q4 = ''Q4''"
    and rules: "rule q1 = ''x >= 50 && y >= 50''" "rule q2 = ''x < 50 && y >= 50''"
      "rule q3 = ''x < 50 && y < 50''" "rule q4 = ''x >= 50 && y < 50''"
    using default_list [of xl yl] by blast
  show ?thesis
    by (rule default_partition_aux(1) [OF qs ids, of h x y, unfolded rules,
          OF default_rules_eval [OF assms]])
qed

lemma default_marker_agrees:
  assumes "safe_int (item_x i)" and "safe_int (item_y i)"
  shows "getQuadrantForItem h (item_x i) (item_y i) (generateDefaultQuadrants xl yl)
     = Returns (marker_quadrant (generateDefaultQuadrants xl yl) i)"
  by (simp add: default_marker default_classify_index [OF assms])

lemma sample_request_valid:
  "req_text sample_request = Some ''Which of our risks matter most?''"
  "domain_hint sample_request = Some ''risk''"
  "length (trim ''Which of our risks matter most?'') = 31"
  by (simp_all add: sample_request_def trim_def is_space_def)

section \<open>The default quadrants partition the safe integer points\<close>


section \<open>The claims\<close>



text \<open>
  C3. When the evaluation of every rule returns, \<^verbatim>\<open>getQuadrantForItem\<close> returns the first
  quadrant, in list order, whose rule holds at the point (its value is truthy), and it
  returns \<^verbatim>\<open>null\<close>, as a value and not as an error, exactly when no rule holds.
\<close>

theorem classify_first_match:
  assumes "\<forall>q\<in>set qs. evaluateQuadrantRule h (rule q) x y \<noteq> Diverges"
  shows "getQuadrantForItem h x y qs = Returns (find (rule_holds h x y) qs)
     \<and> (\<forall>q. getQuadrantForItem h x y qs = Returns (Some q) \<longleftrightarrow>
           (\<exists>before after. qs = before @ q # after \<and> rule_holds h x y q
              \<and> (\<forall>p\<in>set before. \<not> rule_holds h x y p)))
     \<and> (getQuadrantForItem h x y qs = Returns None \<longleftrightarrow> (\<forall>q\<in>set qs. \<not> rule_holds h x y q))"
proof -
  have f: "getQuadrantForItem h x y qs = Returns (find (rule_holds h x y) qs)"
    using assms by (rule getQuadrantForItem_find)
  have "\<And>q. find (rule_holds h x y) qs = Some q \<longleftrightarrow>
           (\<exists>before after. qs = before @ q # after \<and> rule_holds h x y q
              \<and> (\<forall>p\<in>set before. \<not> rule_holds h x y p))"
  proof
    fix q assume "find (rule_holds h x y) qs = Some q"
    then obtain i where i: "i < length qs" "rule_holds h x y (qs ! i)" "q = qs ! i"
      "\<forall>j<i. \<not> rule_holds h x y (qs ! j)"
      by (auto simp: find_Some_iff)
    have "qs = take i qs @ q # drop (Suc i) qs" using i by (simp add: id_take_nth_drop)
    moreover have "\<forall>p\<in>set (take i qs). \<not> rule_holds h x y p"
      using i by (auto simp: in_set_conv_nth)
    ultimately show "\<exists>before after. qs = before @ q # after \<and> rule_holds h x y q
              \<and> (\<forall>p\<in>set before. \<not> rule_holds h x y p)"
      using i by blast
  next
    fix q assume "\<exists>before after. qs = before @ q # after \<and> rule_holds h x y q
              \<and> (\<forall>p\<in>set before. \<not> rule_holds h x y p)"
    then obtain before after where b: "qs = before @ q # after" "rule_holds h x y q"
      "\<forall>p\<in>set before. \<not> rule_holds h x y p" by blast
    have "find (rule_holds h x y) (before @ q # after) = Some q"
      using b(2,3) by (induction before) simp_all
    then show "find (rule_holds h x y) qs = Some q" using b(1) by simp
  qed
  moreover have "find (rule_holds h x y) qs = None \<longleftrightarrow> (\<forall>q\<in>set qs. \<not> rule_holds h x y q)"
    by (auto simp: find_None_iff)
  ultimately show ?thesis using f by simp
qed

theorem classify_first_match_witness:
  "getQuadrantForItem throwing_host 60 20 sample_quadrants
     = Returns (find (rule_holds throwing_host 60 20) sample_quadrants)
   \<and> (\<forall>q. getQuadrantForItem throwing_host 60 20 sample_quadrants = Returns (Some q) \<longleftrightarrow>
           (\<exists>before after. sample_quadrants = before @ q # after \<and> rule_holds throwing_host 60 20 q
              \<and> (\<forall>p\<in>set before. \<not> rule_holds throwing_host 60 20 p)))
   \<and> (getQuadrantForItem throwing_host 60 20 sample_quadrants = Returns None
        \<longleftrightarrow> (\<forall>q\<in>set sample_quadrants. \<not> rule_holds throwing_host 60 20 q))"
  by (rule classify_first_match [OF sample_no_diverge])



text \<open>
  C10, as stated, fails: the value of the dynamic evaluation is returned as it is, and for
  the rule \<^verbatim>\<open>x\<close> at the point (60, 60) it is the number 60, not a boolean.
\<close>

theorem rule_value_not_boolean:
  "evaluateQuadrantRule throwing_host ''x'' 60 60 = Returns (JNum 60)"
  by code_simp

text \<open>
  C10, amended. \<^verbatim>\<open>evaluateQuadrantRule\<close> never throws: a throw of the dynamic evaluation
  becomes \<^verbatim>\<open>false\<close>, and a value that the evaluation returns is returned unchanged.
  \<^verbatim>\<open>getQuadrantForItem\<close> never throws, and it returns whenever the evaluation of every
  rule comes to an end.
\<close>

theorem never_throws:
  "evaluateQuadrantRule h r x y \<noteq> Throws
   \<and> (new_Function h (''return '' @ expression_of r x y) = Throws
        \<longrightarrow> evaluateQuadrantRule h r x y = Returns (JBool False))
   \<and> (\<forall>v. new_Function h (''return '' @ expression_of r x y) = Returns v
        \<longrightarrow> evaluateQuadrantRule h r x y = Returns v)
   \<and> getQuadrantForItem h x y qs \<noteq> Throws
   \<and> ((\<forall>q\<in>set qs. new_Function h (''return '' @ expression_of (rule q) x y) \<noteq> Diverges)
        \<longrightarrow> (\<exists>res. getQuadrantForItem h x y qs = Returns res))"
proof -
  have a: "\<And>r. evaluateQuadrantRule h r x y \<noteq> Throws"
    by (simp add: evaluateQuadrantRule_def split: outcome.splits)
  have b: "getQuadrantForItem h x y qs \<noteq> Throws"
    by (induction qs) (auto simp: a split: outcome.splits)
  have c: "(\<forall>q\<in>set qs. new_Function h (''return '' @ expression_of (rule q) x y) \<noteq> Diverges)
        \<longrightarrow> (\<exists>res. getQuadrantForItem h x y qs = Returns res)"
  proof
    assume "\<forall>q\<in>set qs. new_Function h (''return '' @ expression_of (rule q) x y) \<noteq> Diverges"
    then have "\<forall>q\<in>set qs. evaluateQuadrantRule h (rule q) x y \<noteq> Diverges"
      by (auto simp: evaluateQuadrantRule_def split: outcome.splits)
    then show "\<exists>res. getQuadrantForItem h x y qs = Returns res"
      using getQuadrantForItem_find by blast
  qed
  show ?thesis using a b c by (simp add: evaluateQuadrantRule_def)
qed

theorem never_throws_witness:
  "evaluateQuadrantRule throwing_host ''x = 50'' 60 60 = Returns (JBool False)
   \<and> (\<exists>res. getQuadrantForItem throwing_host 60 60 (assignment_quadrant # sample_quadrants) = Returns res)"
  using never_throws [of throwing_host "''x = 50''" 60 60 "assignment_quadrant # sample_quadrants"]
    assignment_throws_60 sample_new_Function
  by blast

text \<open>
  C2, as stated, fails: nothing compiles a rule and nothing rejects a quadrant. The rule
  \<^verbatim>\<open>x = 50\<close> holds an assignment, a token outside the grammar; its quadrant is classified
  against like any other, and behaves as a rule that is false.
\<close>

theorem bad_rule_not_rejected:
  "evaluateQuadrantRule throwing_host (rule assignment_quadrant) 60 60 = Returns (JBool False)
   \<and> getQuadrantForItem throwing_host 60 60 [assignment_quadrant] = Returns None
   \<and> getQuadrantForItem throwing_host 60 60 (assignment_quadrant # sample_quadrants)
       = Returns (Some (sample_quadrants ! 0))"
  by code_simp

text \<open>
  C2, amended. A rule whose dynamic evaluation throws is not rejected: the evaluator
  returns \<^verbatim>\<open>false\<close> for it and classification goes on with the quadrants after it. The
  rule \<^verbatim>\<open>x = 50\<close> is such a rule at every point with a safe integer \<open>x\<close>, under every host.
\<close>

theorem throwing_rule_is_skipped:
  "(new_Function h (''return '' @ expression_of (rule q) x y) = Throws \<longrightarrow>
      evaluateQuadrantRule h (rule q) x y = Returns (JBool False)
      \<and> getQuadrantForItem h x y (q # qs) = getQuadrantForItem h x y qs)
   \<and> (safe_int x \<longrightarrow>
      evaluateQuadrantRule h (rule assignment_quadrant) x y = Returns (JBool False)
      \<and> getQuadrantForItem h x y (assignment_quadrant # qs) = getQuadrantForItem h x y qs)"
proof -
  have r: "rule assignment_quadrant = ''x = 50''" by (simp add: assignment_quadrant_def)
  have "safe_int x \<longrightarrow> evaluateQuadrantRule h (rule assignment_quadrant) x y = Returns (JBool False)"
    unfolding r by (simp add: assignment_rule_false)
  moreover have "new_Function h (''return '' @ expression_of (rule q) x y) = Throws \<longrightarrow>
      evaluateQuadrantRule h (rule q) x y = Returns (JBool False)"
    by (simp add: evaluateQuadrantRule_def)
  ultimately show ?thesis by simp
qed

theorem throwing_rule_is_skipped_witness:
  "evaluateQuadrantRule throwing_host (rule assignment_quadrant) 60 60 = Returns (JBool False)
   \<and> getQuadrantForItem throwing_host 60 60 (assignment_quadrant # sample_quadrants)
       = getQuadrantForItem throwing_host 60 60 sample_quadrants"
proof -
  have "safe_int 60" by (simp add: safe_int_def max_safe_integer_def)
  then show ?thesis
    using throwing_rule_is_skipped [of throwing_host assignment_quadrant 60 60 sample_quadrants]
    by blast
qed

text \<open>
  C4, as stated, fails when the quadrant set is empty too: \<^verbatim>\<open>reduce\<close> without an initial
  value throws a \<^verbatim>\<open>TypeError\<close> on the empty array of counts.
\<close>

theorem empty_quadrants_throw:
  "generateDataInsights throwing_host [] [] sample_axes = Throws"
  by (simp add: generateDataInsights_def quadrantCounts_def)

text \<open>
  C4, amended. For an empty item collection and a quadrant set that is not empty, the
  aggregator returns the empty insight sequence, without throwing (the means of an empty
  collection are \<^verbatim>\<open>NaN\<close>, and no comparison with \<^verbatim>\<open>NaN\<close> holds); and the overall confidence of
  an empty item collection is 0.
\<close>

theorem empty_items_no_insights:
  assumes "quadrants \<noteq> []"
  shows "generateDataInsights h [] quadrants ax = Returns [] \<and> overallConfidence [] = 0"
proof -
  have "no_divergence h [] quadrants" by (simp add: no_divergence_def)
  then obtain winner where "generateDataInsights h [] quadrants ax = Returns
         ((if (of_nat (length (members h quadrants [] winner)) :: rat) > of_nat (length ([] :: item list)) * (4 / 10)
           then [clustering_insight [] (winner, members h quadrants [] winner)] else [])
          @ after_distribution [] ax)"
    using generateDataInsights_returns [OF _ assms, of h "[]" ax] by blast
  moreover have "after_distribution [] ax = []"
    by (simp add: after_distribution_def js_div_def)
  moreover have "members h quadrants [] winner = []" by (simp add: members_def)
  ultimately show ?thesis by (simp add: overallConfidence_def)
qed

theorem empty_items_no_insights_witness:
  "generateDataInsights throwing_host [] sample_quadrants sample_axes = Returns []
   \<and> overallConfidence [] = 0"
  by (rule empty_items_no_insights [OF sample_quadrants_not_Nil])





text \<open>
  C7. On the default quadrants the chart's quadrant for an item is the classifier's
  (\<open>default_marker_agrees\<close>). On a custom set it is not: the classifier puts the item at (10, 10) into the first
  quadrant, whose colour is \<^verbatim>\<open>#111111\<close>; the chart finds no quadrant, because no id is
  \<^verbatim>\<open>Q1\<close> to \<^verbatim>\<open>Q4\<close>, and paints the fallback colour.
\<close>

theorem chart_color_ignores_rules:
  "getQuadrantForItem throwing_host 10 10 custom_quadrants = Returns (Some (custom_quadrants ! 0))
   \<and> marker_quadrant custom_quadrants (mk_item ''a'' 10 10 1) = None
   \<and> marker_color custom_quadrants (mk_item ''a'' 10 10 1) = ''#3b82f6''
   \<and> color (custom_quadrants ! 0) = ''#111111''"
proof -
  have "getQuadrantForItem throwing_host 10 10 custom_quadrants = Returns (Some (custom_quadrants ! 0))"
    by code_simp
  moreover have m: "marker_quadrant custom_quadrants (mk_item ''a'' 10 10 1) = None"
    by (simp add: marker_quadrant_def custom_quadrants_def position_test_def)
  moreover have "marker_color custom_quadrants (mk_item ''a'' 10 10 1) = ''#3b82f6''"
    by (simp add: marker_color_def m)
  moreover have "color (custom_quadrants ! 0) = ''#111111''"
    by (simp add: custom_quadrants_def)
  ultimately show ?thesis by simp
qed

text \<open>
  C6. With the API key set and an analyzer that throws, the route answers with the
  placeholder's items and with \<^verbatim>\<open>usingMockData\<close> false; without the key the flag is true.
\<close>

theorem fallback_not_flagged:
  "mock_flag (POST True failing_analyzer (Returns ()) ''id'' ''now'' (Some sample_request)) = Some False
   \<and> response_items (POST True failing_analyzer (Returns ()) ''id'' ''now'' (Some sample_request))
       = Some (result_items (createMockAnalysis ''Which of our risks matter most?'' ''risk''))
   \<and> mock_flag (POST False failing_analyzer (Returns ()) ''id'' ''now'' (Some sample_request)) = Some True"
  by (simp add: POST_def sample_request_valid failing_analyzer_def mock_flag_def response_items_def
      unshift_insight_def Let_def)

end
